theory Spec2Isabelle
  imports Complex_Main
begin

section \<open>The product catalog view of \<^verbatim>\<open>src/App.tsx\<close>\<close>

text \<open>
  The repository is one React component, \<^verbatim>\<open>App\<close>. It keeps four pieces of state
  (\<^verbatim>\<open>products\<close>, \<^verbatim>\<open>loading\<close>, \<^verbatim>\<open>currentPage\<close>, \<^verbatim>\<open>hasMore\<close>), fetches one page of
  products with the asynchronous function \<^verbatim>\<open>fetchProducts\<close>, and renders a table and
  three conditional blocks. The two files under \<^verbatim>\<open>src/\<close> differ in styling class
  names and column widths only; the logic modelled here is the same in both.
\<close>

subsection \<open>JavaScript numbers\<close>

text \<open>
  A JavaScript number is an IEEE double. A finite double is an exact rational, so a
  number is modelled by its exact value; the two signed zeros are not told apart.
  A value \<open>Finite q\<close> is meant to carry a \<open>q\<close> that is a double; the numbers of
  the program come from JSON text and literals, through \<open>nearest_double\<close>.
\<close>

datatype number = NaN | PosInfinity | NegInfinity | Finite rat

text \<open>\<open>pow b e\<close> is \<open>b\<close> to the power \<open>e\<close>, for an integer \<open>e\<close> of either sign.\<close>

definition pow :: "int \<Rightarrow> int \<Rightarrow> rat" where
  "pow b e = (if 0 \<le> e then of_int b ^ nat e else 1 / of_int b ^ nat (- e))"

text \<open>The number of digits of \<open>n\<close> in base \<open>b\<close> (none for \<open>n \<le> 0\<close>).\<close>

function count_digits :: "int \<Rightarrow> int \<Rightarrow> nat" where
  "count_digits b n = (if n \<le> 0 \<or> b < 2 then 0 else Suc (count_digits b (n div b)))"
  by pat_completeness auto
termination
  by (relation "measure (\<lambda>(b, n). nat n)") (auto simp: int_div_less_self)

declare count_digits.simps [simp del]

text \<open>
  For \<open>q > 0\<close>, the integer \<open>e\<close> with \<open>b ^ e \<le> q < b ^ (e + 1)\<close>: from the digits of
  the integer part when \<open>q \<ge> 1\<close>, from those of the reciprocal otherwise.
\<close>

definition floor_log :: "int \<Rightarrow> rat \<Rightarrow> int" where
  "floor_log b q =
     (if 1 \<le> q then int (count_digits b \<lfloor>q\<rfloor>) - 1
      else - int (count_digits b (\<lceil>1 / q\<rceil> - 1)))"

definition round_half_even :: "rat \<Rightarrow> int" where
  "round_half_even r =
     (let f = \<lfloor>r\<rfloor>; d = r - of_int f
      in if d < 1 / 2 then f else if 1 / 2 < d then f + 1
         else if even f then f else f + 1)"

text \<open>
  The double nearest to a positive rational (ties to the even significand): a
  significand of 53 bits, the least exponent \<open>-1074\<close> of the subnormal numbers,
  and overflow (\<open>None\<close>, an infinity) from \<open>2 ^ 1024\<close> on.
\<close>

definition round_to_double :: "rat \<Rightarrow> rat option" where
  "round_to_double q =
     (let e = max (floor_log 2 q - 52) (- 1074);
          v = of_int (round_half_even (q / pow 2 e)) * pow 2 e
      in if v < pow 2 1024 then Some v else None)"

text \<open>
  The number that a decimal literal or a JSON number of exact value \<open>q\<close> denotes.
\<close>

definition nearest_double :: "rat \<Rightarrow> number" where
  "nearest_double q =
     (if q = 0 then Finite 0
      else if 0 < q then
        (case round_to_double q of Some v \<Rightarrow> Finite v | None \<Rightarrow> PosInfinity)
      else
        (case round_to_double (- q) of Some v \<Rightarrow> Finite (- v) | None \<Rightarrow> NegInfinity))"

definition digit_char :: "nat \<Rightarrow> char" where
  "digit_char d = ''0123456789'' ! d"

text \<open>The decimal digits of an integer \<open>n \<ge> 0\<close>, \<open>''0''\<close> for 0.\<close>

function decimal_digits :: "int \<Rightarrow> string" where
  "decimal_digits n =
     (if n < 10 then [digit_char (nat n)]
      else decimal_digits (n div 10) @ [digit_char (nat (n mod 10))])"
  by pat_completeness auto
termination
  by (relation "measure nat") auto

declare decimal_digits.simps [simp del]

definition zeros :: "nat \<Rightarrow> string" where
  "zeros n = replicate n CHR ''0''"

text \<open>
  The conversion of a number to a string (\<^verbatim>\<open>Number::toString\<close> of ECMAScript, radix
  10), which React applies to a number placed in markup. For a finite \<open>x > 0\<close> it
  takes integers \<open>n\<close>, \<open>k\<close>, \<open>s\<close> with \<open>k \<ge> 1\<close>, \<open>10 ^ (k - 1) \<le> s < 10 ^ k\<close>, such
  that \<open>s * 10 ^ (n - k)\<close> denotes \<open>x\<close>, with \<open>k\<close> as small as possible.

  \<open>round_trips x k\<close> lists the pairs \<open>(n, s)\<close> that qualify for a given \<open>k\<close>. Only
  the two multiples of \<open>10 ^ (n - k)\<close> around \<open>x\<close> can denote \<open>x\<close>, and \<open>n\<close> is the
  decimal exponent of \<open>x\<close> or one more.
\<close>

definition round_trips :: "rat \<Rightarrow> nat \<Rightarrow> (int \<times> int) list" where
  "round_trips x k =
     (let n0 = floor_log 10 x + 1
      in concat (map (\<lambda>n.
           let lo = \<lfloor>x / pow 10 (n - int k)\<rfloor>
           in map (\<lambda>s. (n, s))
                (filter (\<lambda>s. 10 ^ (k - 1) \<le> s \<and> s < 10 ^ k \<and>
                     nearest_double (of_int s * pow 10 (n - int k)) = Finite x)
                   [lo, lo + 1]))
         [n0, n0 + 1]))"

text \<open>Among several pairs, the one nearest to \<open>x\<close>; of two equally near, the even \<open>s\<close>.\<close>

definition distance :: "rat \<Rightarrow> nat \<Rightarrow> int \<times> int \<Rightarrow> rat" where
  "distance x k c = \<bar>of_int (snd c) * pow 10 (fst c - int k) - x\<bar>"

fun closest :: "rat \<Rightarrow> nat \<Rightarrow> int \<times> int \<Rightarrow> (int \<times> int) list \<Rightarrow> int \<times> int" where
  "closest x k c [] = c"
| "closest x k c (c' # cs) =
     (if distance x k c' < distance x k c \<or>
         (distance x k c' = distance x k c \<and> even (snd c'))
      then closest x k c' cs else closest x k c cs)"

text \<open>
  The search for the least \<open>k\<close>, from \<open>k\<close> upwards. Seventeen digits tell any two
  doubles apart, so for a double the search succeeds by \<open>k = 17\<close>.
\<close>

function shortest :: "rat \<Rightarrow> nat \<Rightarrow> (int \<times> nat \<times> int) option" where
  "shortest x k =
     (case round_trips x k of
        [] \<Rightarrow> (if k < 17 then shortest x (k + 1) else None)
      | c # cs \<Rightarrow> (case closest x k c cs of (n, s) \<Rightarrow> Some (n, k, s)))"
  by pat_completeness auto
termination
  by (relation "measure (\<lambda>(x, k). 17 - k)") auto

declare shortest.simps [simp del]

text \<open>
  The string for \<open>n\<close>, \<open>k\<close>, \<open>s\<close>: plain decimal notation when \<open>-5 \<le> n \<le> 21\<close>,
  exponential notation otherwise.
\<close>

definition format_digits :: "int \<Rightarrow> nat \<Rightarrow> int \<Rightarrow> string" where
  "format_digits n k s =
     (let ds = decimal_digits s
      in if - 5 \<le> n \<and> n \<le> 21 then
           (if int k \<le> n then ds @ zeros (nat n - k)
            else if 0 < n then take (nat n) ds @ ''.'' @ drop (nat n) ds
            else ''0.'' @ zeros (nat (- n)) @ ds)
         else
           (let e = n - 1;
                sgn = (if e < 0 then ''-'' else ''+'');
                es = decimal_digits \<bar>e\<bar>
            in if k = 1 then ds @ ''e'' @ sgn @ es
               else take 1 ds @ ''.'' @ drop 1 ds @ ''e'' @ sgn @ es))"

definition positive_to_string :: "rat \<Rightarrow> string" where
  "positive_to_string x =
     (case shortest x 1 of
        Some (n, k, s) \<Rightarrow> format_digits n k s
      | None \<Rightarrow> [])"

fun number_to_string :: "number \<Rightarrow> string" where
  "number_to_string NaN = ''NaN''"
| "number_to_string PosInfinity = ''Infinity''"
| "number_to_string NegInfinity = ''-Infinity''"
| "number_to_string (Finite q) =
     (if q = 0 then ''0''
      else if q < 0 then ''-'' @ positive_to_string (- q)
      else positive_to_string q)"

text \<open>
  \<^verbatim>\<open>x.toFixed(f)\<close> for \<open>0 \<le> f \<le> 100\<close> (the source passes 2): a number that is not
  finite, or of magnitude \<open>10 ^ 21\<close> or more, is converted as above; otherwise the
  integer \<open>n\<close> nearest to \<open>x * 10 ^ f\<close> (the larger of two) is written with \<open>f\<close>
  digits after the point, padded with leading zeros to at least \<open>f + 1\<close> digits.
\<close>

definition toFixed :: "nat \<Rightarrow> number \<Rightarrow> string" where
  "toFixed f x =
     (case x of
        Finite q \<Rightarrow>
          (let sgn = (if q < 0 then ''-'' else []);
               a = \<bar>q\<bar>
           in if pow 10 21 \<le> a then sgn @ number_to_string (Finite a)
              else
                (let n = \<lfloor>a * 10 ^ f + 1 / 2\<rfloor>;
                     m = decimal_digits n
                 in if f \<noteq> 0 then
                      (let m' = (if length m \<le> f then zeros (f + 1 - length m) @ m else m);
                           k = length m'
                       in sgn @ take (k - f) m' @ ''.'' @ drop (k - f) m')
                    else sgn @ m))
      | _ \<Rightarrow> number_to_string x)"

subsection \<open>Data model\<close>

text \<open>
  \<^verbatim>\<open>interface Product { id; title; price; description; category; image;
  rating: { rate; count } }\<close>. The field \<^verbatim>\<open>id\<close> is called \<open>product_id\<close> here,
  since \<open>id\<close> is the identity function of HOL.
\<close>

record Rating =
  rate :: number
  count :: number

record Product =
  product_id :: number
  title :: string
  price :: number
  description :: string
  category :: string
  image :: string
  rating :: Rating

subsection \<open>The Price and Rating cells\<close>

text \<open>
  The \<^verbatim>\<open>render\<close> functions of the Price and Rating columns, as the text they put in
  the cell. Price: \<^verbatim>\<open>${Number(price).toFixed(2)}\<close> inside markup, that is a dollar
  sign followed by the formatted number; the column reads the \<open>price\<close> field of a
  \<open>Product\<close>, a number, on which \<^verbatim>\<open>Number\<close> is the identity. Rating: a star, then
  \<^verbatim>\<open>{rating.rate}\<close>, then \<^verbatim>\<open>({rating.count} reviews)\<close>. The star U+2605 is given
  by its three UTF-8 bytes.
\<close>

definition render_price :: "number \<Rightarrow> string" where
  "render_price amount = ''$'' @ toFixed 2 amount"

record rating_cell =
  star :: string
  average :: string
  reviews :: string

definition render_rating :: "Rating \<Rightarrow> rating_cell" where
  "render_rating r =
     \<lparr>star = [CHR 0xE2, CHR 0x98, CHR 0x85],
      average = number_to_string (rate r),
      reviews = ''('' @ number_to_string (count r) @ '' reviews)''\<rparr>"

subsection \<open>Exceptions and state\<close>

text \<open>
  What the component can throw inside \<^verbatim>\<open>fetchProducts\<close>: the rejection of
  \<^verbatim>\<open>fetch\<close> (a network error), the \<^verbatim>\<open>Error\<close> thrown for a response that is not
  \<^verbatim>\<open>ok\<close>, and the rejection of \<^verbatim>\<open>response.json()\<close> on a body that is not JSON.
\<close>

datatype exn = NetworkError | Error string | SyntaxError

text \<open>
  The state of the component: the four \<^verbatim>\<open>useState\<close> cells, and the two outputs of
  the catch block, the calls of \<^verbatim>\<open>message.error\<close> (the notifications shown to the
  user) and of \<^verbatim>\<open>console.error\<close>, each as the list of calls made so far.
  \<^verbatim>\<open>currentPage\<close> is a JavaScript number that starts at 1 and only ever receives
  \<^verbatim>\<open>page\<close> arguments built by adding 1; it is modelled as an integer.
\<close>

record app_state =
  products :: "Product list"
  loading :: bool
  currentPage :: int
  hasMore :: bool
  notifications :: "string list"
  console :: "(string \<times> exn) list"

text \<open>
  \<^verbatim>\<open>useState<Product[]>([])\<close>, \<^verbatim>\<open>useState(false)\<close>, \<^verbatim>\<open>useState(1)\<close>,
  \<^verbatim>\<open>useState(true)\<close>.
\<close>

definition initial_state :: app_state where
  "initial_state =
     \<lparr>products = [], loading = False, currentPage = 1, hasMore = True,
      notifications = [], console = []\<rparr>"

subsection \<open>The Product API, as seen by one call\<close>

text \<open>
  What one request to \<^verbatim>\<open>https://fakestoreapi.com/products?limit=10&page=${page}\<close>
  can do: \<^verbatim>\<open>fetch\<close> rejects, or it resolves to a response with its \<^verbatim>\<open>ok\<close> flag, whose
  body either fails to parse or parses to the value that the source declares as
  \<^verbatim>\<open>Product[]\<close>. The declared type is taken at its word: a body that parses to
  something that is not an array of products is outside the model.
\<close>

datatype json_body = Unparsable | Parsed "Product list"

datatype api_outcome = NetworkReject | Response bool json_body

subsection \<open>\<^verbatim>\<open>fetchProducts\<close>\<close>

text \<open>
  A block of the function runs on a state and ends normally (\<open>None\<close>) or by
  throwing (\<open>Some e\<close>); the state it leaves is kept either way, as setters that
  ran before a throw are not undone.
\<close>

type_synonym block = "app_state \<Rightarrow> exn option \<times> app_state"

text \<open>
  \<^verbatim>\<open>try { body } catch (error) { handler } finally { fin }\<close>: the handler runs when
  the body throws, the finally block runs in every case, and the statement throws
  what the finally block throws, else what the handler throws, else nothing.
\<close>

definition try_catch_finally :: "block \<Rightarrow> (exn \<Rightarrow> block) \<Rightarrow> block \<Rightarrow> block" where
  "try_catch_finally body handler fin st =
     (case body st of
        (None, st1) \<Rightarrow> fin st1
      | (Some e, st1) \<Rightarrow>
          (case handler e st1 of
             (None, st2) \<Rightarrow> fin st2
           | (Some e', st2) \<Rightarrow>
               (case fin st2 of
                  (None, st3) \<Rightarrow> (Some e', st3)
                | (Some e'', st3) \<Rightarrow> (Some e'', st3))))"

text \<open>
  The part of \<^verbatim>\<open>fetchProducts\<close> that runs synchronously at the call, before the
  first \<^verbatim>\<open>await\<close>: \<^verbatim>\<open>setLoading(true)\<close>.
\<close>

definition fetchProducts_begin :: "app_state \<Rightarrow> app_state" where
  "fetchProducts_begin st = st\<lparr>loading := True\<rparr>"

text \<open>
  The try block, once the delay has elapsed and the request has settled with
  \<open>outcome\<close>. The 2000 ms timer promise always resolves and changes no state.
  \<^verbatim>\<open>if (!response.ok) throw new Error('Failed to fetch products')\<close>, then
  \<^verbatim>\<open>setProducts(data); setHasMore(data.length > 0); setCurrentPage(page)\<close>.
\<close>

definition fetchProducts_try :: "int \<Rightarrow> api_outcome \<Rightarrow> block" where
  "fetchProducts_try page outcome st =
     (case outcome of
        NetworkReject \<Rightarrow> (Some NetworkError, st)
      | Response ok body \<Rightarrow>
          if \<not> ok then (Some (Error ''Failed to fetch products''), st)
          else (case body of
                  Unparsable \<Rightarrow> (Some SyntaxError, st)
                | Parsed data \<Rightarrow>
                    (None, st\<lparr>products := data,
                              hasMore := (length data > 0),
                              currentPage := page\<rparr>)))"

text \<open>
  \<^verbatim>\<open>catch (error) { console.error('Error fetching products:', error);
  message.error('Failed to load products. Please try again.'); }\<close>
\<close>

definition fetchProducts_catch :: "exn \<Rightarrow> block" where
  "fetchProducts_catch error st =
     (None, st\<lparr>console := console st @ [(''Error fetching products:'', error)],
               notifications := notifications st @
                 [''Failed to load products. Please try again.'']\<rparr>)"

text \<open>\<^verbatim>\<open>finally { setLoading(false); }\<close>\<close>

definition fetchProducts_finally :: block where
  "fetchProducts_finally st = (None, st\<lparr>loading := False\<rparr>)"

text \<open>
  The continuation of the call after its awaits. The first component of the
  result is how the promise returned by \<^verbatim>\<open>fetchProducts\<close> settles: \<open>None\<close> when it
  resolves, \<open>Some e\<close> when it rejects with \<open>e\<close>.
\<close>

definition fetchProducts_resume :: "int \<Rightarrow> api_outcome \<Rightarrow> block" where
  "fetchProducts_resume page outcome =
     try_catch_finally (fetchProducts_try page outcome) fetchProducts_catch
       fetchProducts_finally"

text \<open>One whole call, from the call to the settling of its promise.\<close>

definition fetchProducts :: "int \<Rightarrow> api_outcome \<Rightarrow> block" where
  "fetchProducts page outcome st =
     fetchProducts_resume page outcome (fetchProducts_begin st)"

text \<open>A fetch is successful when the response is \<^verbatim>\<open>ok\<close> and its body parses.\<close>

fun fetch_succeeds :: "api_outcome \<Rightarrow> bool" where
  "fetch_succeeds (Response True (Parsed data)) = True"
| "fetch_succeeds outcome = False"

subsection \<open>What is rendered\<close>

text \<open>
  The rows given to the table (\<^verbatim>\<open>loading ? renderSkeletonRows() : products\<close>, the
  skeleton rows keyed \<^verbatim>\<open>skeleton-0\<close> to \<^verbatim>\<open>skeleton-9\<close>) and the four conditional
  blocks of the returned markup. Styling is left out.
\<close>

datatype row = SkeletonRow nat | ProductRow Product

definition renderSkeletonRows :: "row list" where
  "renderSkeletonRows = map SkeletonRow [0..<10]"

record rendered =
  dataSource :: "row list"
  loading_panel :: bool
  load_more_button :: bool
  end_of_list_message :: bool
  showing_count :: "nat option"

definition render :: "app_state \<Rightarrow> rendered" where
  "render st =
     \<lparr>dataSource = (if loading st then renderSkeletonRows else map ProductRow (products st)),
      loading_panel = loading st,
      load_more_button = (hasMore st \<and> \<not> loading st),
      end_of_list_message = (\<not> hasMore st \<and> length (products st) > 0),
      showing_count =
        (if length (products st) > 0 then Some (length (products st)) else None)\<rparr>"

subsection \<open>The component as an event system\<close>

text \<open>
  The component between events: its state; the state that the last render saw,
  which is what is on screen and what the handlers created by that render close
  over; whether the mount effect
  (\<^verbatim>\<open>useEffect(() => { fetchProducts(1); }, [])\<close>, which React runs once after the
  first render) has run; the pages of the calls of \<^verbatim>\<open>fetchProducts\<close> that have not
  settled yet; and the pages of all calls made so far.
\<close>

record component =
  state :: app_state
  shown :: app_state
  effect_ran :: bool
  in_flight :: "int list"
  calls :: "int list"

definition mounted :: component where
  "mounted =
     \<lparr>state = initial_state, shown = initial_state, effect_ran = False, in_flight = [],
      calls = []\<rparr>"

text \<open>A call of \<^verbatim>\<open>fetchProducts(page)\<close>: its synchronous part runs, the rest is pending.\<close>

definition call_fetchProducts :: "int \<Rightarrow> component \<Rightarrow> component" where
  "call_fetchProducts page c =
     c\<lparr>state := fetchProducts_begin (state c),
       in_flight := in_flight c @ [page],
       calls := calls c @ [page]\<rparr>"

text \<open>
  \<^verbatim>\<open>const handleLoadMore = () => { fetchProducts(currentPage + 1); }\<close>. The handler
  on the button is the one the last render created, and \<^verbatim>\<open>currentPage\<close> in it is
  the value of that render. The handler itself checks nothing.
\<close>

definition handleLoadMore :: "component \<Rightarrow> component" where
  "handleLoadMore c = call_fetchProducts (currentPage (shown c) + 1) c"

text \<open>
  The events: the mount effect runs; the user clicks the button, whose
  \<^verbatim>\<open>onClick\<close> is \<^verbatim>\<open>handleLoadMore\<close>; one of the pending calls, given by its position
  among them, settles with an outcome of the API; the component renders again.
  The effect runs once, and before any click is handled. A click needs the button
  to be on screen, that is in the last render: a state change hides the button
  only at the next render, so until then further clicks start further calls. Only
  a pending call can settle, and a render follows a change of state. An event
  that cannot happen gives \<open>None\<close>.
\<close>

datatype event = MountEffect | ClickLoadMore | Settle nat api_outcome | Render

fun step :: "component \<Rightarrow> event \<Rightarrow> component option" where
  "step c MountEffect =
     (if effect_ran c then None
      else Some (call_fetchProducts 1 (c\<lparr>effect_ran := True\<rparr>)))"
| "step c ClickLoadMore =
     (if effect_ran c \<and> load_more_button (render (shown c))
      then Some (handleLoadMore c) else None)"
| "step c (Settle i outcome) =
     (if i < length (in_flight c)
      then Some (c\<lparr>state := snd (fetchProducts_resume (in_flight c ! i) outcome (state c)),
                   in_flight := take i (in_flight c) @ drop (Suc i) (in_flight c)\<rparr>)
      else None)"
| "step c Render =
     (if shown c = state c then None else Some (c\<lparr>shown := state c\<rparr>))"

fun run :: "component \<Rightarrow> event list \<Rightarrow> component option" where
  "run c [] = Some c"
| "run c (e # es) = (case step c e of None \<Rightarrow> None | Some c' \<Rightarrow> run c' es)"

text \<open>The data of the most recent successful fetch in a sequence of events.\<close>

fun fetched :: "event \<Rightarrow> Product list option" where
  "fetched (Settle i (Response True (Parsed data))) = Some data"
| "fetched e = None"

fun last_success :: "event list \<Rightarrow> Product list option" where
  "last_success [] = None"
| "last_success (e # es) =
     (case last_success es of Some data \<Rightarrow> Some data | None \<Rightarrow> fetched e)"

subsection \<open>Sample data and runs\<close>

definition sample_product :: Product where
  "sample_product =
     \<lparr>product_id = Finite 1, title = ''Backpack'', price = nearest_double (195 / 10),
      description = ''Fits a laptop'', category = ''bags'',
      image = ''https://fakestoreapi.com/img/1.jpg'',
      rating = \<lparr>rate = nearest_double (43 / 10), count = Finite 120\<rparr>\<rparr>"

text \<open>The component just after its mount effect has called \<^verbatim>\<open>fetchProducts(1)\<close>.\<close>

definition first_fetch_pending :: component where
  "first_fetch_pending =
     \<lparr>state = initial_state\<lparr>loading := True\<rparr>, shown = initial_state,
      effect_ran = True, in_flight = [1], calls = [1]\<rparr>"

text \<open>Page 1 has come back with one product; the component has not rendered since.\<close>

definition page_1_loaded :: component where
  "page_1_loaded =
     \<lparr>state = initial_state\<lparr>products := [sample_product]\<rparr>, shown = initial_state,
      effect_ran = True, in_flight = [], calls = [1]\<rparr>"

text \<open>The component showing page 1.\<close>

definition showing_page_1 :: component where
  "showing_page_1 =
     \<lparr>state = initial_state\<lparr>products := [sample_product]\<rparr>,
      shown = initial_state\<lparr>products := [sample_product]\<rparr>,
      effect_ran = True, in_flight = [], calls = [1]\<rparr>"

text \<open>The component after a click on the button there: \<^verbatim>\<open>fetchProducts(2)\<close> is pending.\<close>

definition second_fetch_pending :: component where
  "second_fetch_pending =
     \<lparr>state = initial_state\<lparr>products := [sample_product], loading := True\<rparr>,
      shown = initial_state\<lparr>products := [sample_product]\<rparr>,
      effect_ran = True, in_flight = [2], calls = [1, 2]\<rparr>"

text \<open>The component after page 2 has then come back empty, before and after it renders.\<close>

definition after_empty_page_2 :: component where
  "after_empty_page_2 =
     \<lparr>state = initial_state\<lparr>currentPage := 2, hasMore := False\<rparr>,
      shown = initial_state\<lparr>products := [sample_product]\<rparr>,
      effect_ran = True, in_flight = [], calls = [1, 2]\<rparr>"

definition showing_empty_page_2 :: component where
  "showing_empty_page_2 =
     \<lparr>state = initial_state\<lparr>currentPage := 2, hasMore := False\<rparr>,
      shown = initial_state\<lparr>currentPage := 2, hasMore := False\<rparr>,
      effect_ran = True, in_flight = [], calls = [1, 2]\<rparr>"

text \<open>
  The component after a second click on the button of \<open>second_fetch_pending\<close>,
  which is still on screen: two calls \<^verbatim>\<open>fetchProducts(2)\<close> are pending. Then the
  first of them has come back empty; then the other has come back with a product.
\<close>

definition two_fetches_pending :: component where
  "two_fetches_pending =
     \<lparr>state = initial_state\<lparr>products := [sample_product], loading := True\<rparr>,
      shown = initial_state\<lparr>products := [sample_product]\<rparr>,
      effect_ran = True, in_flight = [2, 2], calls = [1, 2, 2]\<rparr>"

definition first_of_two_empty :: component where
  "first_of_two_empty =
     \<lparr>state = initial_state\<lparr>currentPage := 2, hasMore := False\<rparr>,
      shown = initial_state\<lparr>products := [sample_product]\<rparr>,
      effect_ran = True, in_flight = [2], calls = [1, 2, 2]\<rparr>"

definition second_of_two_full :: component where
  "second_of_two_full =
     \<lparr>state = initial_state\<lparr>products := [sample_product], currentPage := 2\<rparr>,
      shown = initial_state\<lparr>products := [sample_product]\<rparr>,
      effect_ran = True, in_flight = [], calls = [1, 2, 2]\<rparr>"

subsection \<open>Invariants of the runs\<close>

text \<open>
  While \<open>loading\<close> is set a call is pending; \<open>products\<close> is empty whenever
  \<open>hasMore\<close> is unset, in the state and in what is on screen; until the effect
  has run, \<open>hasMore\<close> is set and no call is pending.
\<close>

definition invariant :: "component \<Rightarrow> bool" where
  "invariant c =
     ((\<not> loading (state c) \<or> in_flight c \<noteq> []) \<and>
      (hasMore (state c) \<or> products (state c) = []) \<and>
      (hasMore (shown c) \<or> products (shown c) = []) \<and>
      (hasMore (state c) \<or> effect_ran c) \<and>
      (effect_ran c \<or> in_flight c = []))"

text \<open>
  The component has come to rest at the end of the catalog: the effect has run,
  \<open>hasMore\<close> is unset, no call is pending and the button is not on screen.
\<close>

definition at_end :: "component \<Rightarrow> bool" where
  "at_end c =
     (effect_ran c \<and> \<not> hasMore (state c) \<and> in_flight c = [] \<and>
      \<not> load_more_button (render (shown c)))"

section \<open>Properties of \<^verbatim>\<open>fetchProducts\<close>\<close>

lemma fetchProducts_resume_success:
  "fetchProducts_resume page (Response True (Parsed data)) st =
     (None, st\<lparr>products := data, hasMore := (length data > 0), currentPage := page,
               loading := False\<rparr>)"
  by (simp add: fetchProducts_resume_def try_catch_finally_def fetchProducts_try_def
      fetchProducts_finally_def)

lemma fetch_succeeds_iff:
  "fetch_succeeds outcome = (\<exists>data. outcome = Response True (Parsed data))"
  by (cases outcome rule: fetch_succeeds.cases) simp_all

lemma fetchProducts_try_failure:
  "\<not> fetch_succeeds outcome \<Longrightarrow> \<exists>e. fetchProducts_try page outcome st = (Some e, st)"
  by (cases outcome rule: fetch_succeeds.cases) (simp_all add: fetchProducts_try_def)

lemma fetchProducts_resume_failure:
  assumes "\<not> fetch_succeeds outcome"
  shows "\<exists>e. fetchProducts_resume page outcome st =
     (None, st\<lparr>console := console st @ [(''Error fetching products:'', e)],
               notifications := notifications st @
                 [''Failed to load products. Please try again.''],
               loading := False\<rparr>)"
proof -
  from fetchProducts_try_failure [OF assms] obtain e
    where "fetchProducts_try page outcome st = (Some e, st)" by blast
  then have "fetchProducts_resume page outcome st =
     (None, st\<lparr>console := console st @ [(''Error fetching products:'', e)],
               notifications := notifications st @
                 [''Failed to load products. Please try again.''],
               loading := False\<rparr>)"
    by (simp add: fetchProducts_resume_def try_catch_finally_def fetchProducts_catch_def
        fetchProducts_finally_def)
  then show ?thesis by blast
qed

lemma fetchProducts_resume_resolves: "fst (fetchProducts_resume page outcome st) = None"
proof (cases "fetch_succeeds outcome")
  case True
  then show ?thesis
    by (auto simp: fetch_succeeds_iff fetchProducts_resume_success)
next
  case False
  from fetchProducts_resume_failure [OF this, of page st]
  show ?thesis by auto
qed

text \<open>
  Claim C1: after a successful fetch of page \<open>p\<close>, whatever the state before,
  \<open>products\<close> is exactly the sequence the API returned (the earlier contents are
  replaced, nothing is appended), \<open>hasMore\<close> tells whether that sequence is
  non-empty, and \<open>currentPage\<close> is \<open>p\<close>.
\<close>

theorem fetchProducts_success_replaces_products:
  "products (snd (fetchProducts p (Response True (Parsed data)) st)) = data \<and>
   hasMore (snd (fetchProducts p (Response True (Parsed data)) st)) = (length data > 0) \<and>
   currentPage (snd (fetchProducts p (Response True (Parsed data)) st)) = p"
  by (simp add: fetchProducts_def fetchProducts_resume_success)

theorem fetchProducts_success_replaces_products_witness:
  "products (snd (fetchProducts 2 (Response True (Parsed [sample_product]))
      (initial_state\<lparr>products := [sample_product, sample_product]\<rparr>))) = [sample_product] \<and>
   hasMore (snd (fetchProducts 2 (Response True (Parsed [sample_product]))
      (initial_state\<lparr>products := [sample_product, sample_product]\<rparr>))) \<and>
   currentPage (snd (fetchProducts 2 (Response True (Parsed [sample_product]))
      (initial_state\<lparr>products := [sample_product, sample_product]\<rparr>))) = 2"
  using fetchProducts_success_replaces_products
    [of 2 "[sample_product]" "initial_state\<lparr>products := [sample_product, sample_product]\<rparr>"]
  by simp

text \<open>
  Claim C2: a fetch that fails (\<^verbatim>\<open>fetch\<close> rejects, or the response is not \<^verbatim>\<open>ok\<close>;
  the same holds for a body that does not parse) leaves \<open>products\<close> and
  \<open>currentPage\<close> as they were, adds exactly one error notification, and ends with
  \<open>loading\<close> unset.
\<close>

theorem fetchProducts_failure_keeps_data:
  assumes "\<not> fetch_succeeds outcome"
  shows "products (snd (fetchProducts page outcome st)) = products st \<and>
         currentPage (snd (fetchProducts page outcome st)) = currentPage st \<and>
         notifications (snd (fetchProducts page outcome st)) =
           notifications st @ [''Failed to load products. Please try again.''] \<and>
         \<not> loading (snd (fetchProducts page outcome st))"
proof -
  from fetchProducts_resume_failure [OF assms, of page "fetchProducts_begin st"]
  show ?thesis
    by (auto simp: fetchProducts_def fetchProducts_begin_def)
qed

theorem fetchProducts_failure_keeps_data_witness:
  "\<not> fetch_succeeds NetworkReject \<and>
   \<not> fetch_succeeds (Response False (Parsed [])) \<and>
   products (snd (fetchProducts 2 NetworkReject (state showing_page_1))) = [sample_product] \<and>
   currentPage (snd (fetchProducts 2 NetworkReject (state showing_page_1))) = 1 \<and>
   notifications (snd (fetchProducts 2 NetworkReject (state showing_page_1))) =
     [''Failed to load products. Please try again.''] \<and>
   \<not> loading (snd (fetchProducts 2 NetworkReject (state showing_page_1))) \<and>
   products (snd (fetchProducts 2 (Response False (Parsed [])) (state showing_page_1))) =
     [sample_product] \<and>
   currentPage (snd (fetchProducts 2 (Response False (Parsed [])) (state showing_page_1))) = 1 \<and>
   notifications (snd (fetchProducts 2 (Response False (Parsed [])) (state showing_page_1))) =
     [''Failed to load products. Please try again.''] \<and>
   \<not> loading (snd (fetchProducts 2 (Response False (Parsed [])) (state showing_page_1)))"
proof -
  have a: "\<not> fetch_succeeds NetworkReject" by simp
  have b: "\<not> fetch_succeeds (Response False (Parsed []))" by simp
  show ?thesis
    using a b
      fetchProducts_failure_keeps_data [OF a, of 2 "state showing_page_1"]
      fetchProducts_failure_keeps_data [OF b, of 2 "state showing_page_1"]
    by (simp add: showing_page_1_def initial_state_def)
qed

text \<open>
  Claim C9: for every page and every outcome of the API (success, a response that
  is not \<^verbatim>\<open>ok\<close>, a network rejection, a body that does not parse) the promise
  returned by \<^verbatim>\<open>fetchProducts\<close> resolves: whatever the try block throws is handled
  by the catch block of the function, followed by its finally block, and nothing
  is thrown to the caller.
\<close>

theorem fetchProducts_never_rejects:
  "fst (fetchProducts page outcome st) = None \<and>
   (\<forall>e st1. fetchProducts_try page outcome (fetchProducts_begin st) = (Some e, st1) \<longrightarrow>
      fetchProducts page outcome st = fetchProducts_finally (snd (fetchProducts_catch e st1)))"
  by (simp add: fetchProducts_def fetchProducts_resume_resolves)
    (simp add: fetchProducts_resume_def try_catch_finally_def fetchProducts_catch_def)

theorem fetchProducts_never_rejects_witness:
  "fetchProducts_try 1 NetworkReject (fetchProducts_begin initial_state) =
     (Some NetworkError, initial_state\<lparr>loading := True\<rparr>) \<and>
   fst (fetchProducts 1 NetworkReject initial_state) = None \<and>
   fetchProducts 1 NetworkReject initial_state =
     fetchProducts_finally
       (snd (fetchProducts_catch NetworkError (initial_state\<lparr>loading := True\<rparr>)))"
proof -
  have t: "fetchProducts_try 1 NetworkReject (fetchProducts_begin initial_state) =
     (Some NetworkError, initial_state\<lparr>loading := True\<rparr>)"
    by (simp add: fetchProducts_try_def fetchProducts_begin_def)
  from fetchProducts_never_rejects [of 1 NetworkReject initial_state] t
  show ?thesis by blast
qed


section \<open>Properties of the runs of the component\<close>

lemma invariant_mounted: "invariant mounted"
  by (simp add: invariant_def mounted_def initial_state_def)

lemma invariant_step:
  assumes "invariant c" "step c e = Some c'"
  shows "invariant c'"
proof (cases e)
  case MountEffect
  with assms show ?thesis
    by (auto simp: invariant_def call_fetchProducts_def fetchProducts_begin_def
        split: if_splits)
next
  case ClickLoadMore
  with assms show ?thesis
    by (auto simp: invariant_def handleLoadMore_def call_fetchProducts_def
        fetchProducts_begin_def split: if_splits)
next
  case (Settle i outcome)
  show ?thesis
  proof (cases "fetch_succeeds outcome")
    case True
    with assms Settle show ?thesis
      by (auto simp: invariant_def fetch_succeeds_iff fetchProducts_resume_success
          split: if_splits)
  next
    case False
    from fetchProducts_resume_failure [OF False, of "in_flight c ! i" "state c"] assms Settle
    show ?thesis
      by (auto simp: invariant_def split: if_splits)
  qed
next
  case Render
  with assms show ?thesis
    by (auto simp: invariant_def split: if_splits)
qed

lemma invariant_run: "invariant c \<Longrightarrow> run c es = Some c' \<Longrightarrow> invariant c'"
  by (induction es arbitrary: c) (auto split: option.splits dest: invariant_step)

lemma reachable_invariant: "run mounted es = Some c \<Longrightarrow> invariant c"
  using invariant_mounted invariant_run by blast

lemma step_mounted: "step mounted MountEffect = Some first_fetch_pending"
  by (simp add: mounted_def first_fetch_pending_def call_fetchProducts_def
      fetchProducts_begin_def)

lemma step_first_fetch_pending:
  "step first_fetch_pending (Settle 0 (Response True (Parsed [sample_product]))) =
     Some page_1_loaded"
  by (simp add: first_fetch_pending_def page_1_loaded_def fetchProducts_resume_success
      initial_state_def)

lemma step_page_1_loaded: "step page_1_loaded Render = Some showing_page_1"
  by (simp add: page_1_loaded_def showing_page_1_def initial_state_def)

lemma step_showing_page_1: "step showing_page_1 ClickLoadMore = Some second_fetch_pending"
  by (simp add: showing_page_1_def second_fetch_pending_def render_def initial_state_def
      handleLoadMore_def call_fetchProducts_def fetchProducts_begin_def)

lemma step_second_fetch_pending:
  "step second_fetch_pending (Settle 0 (Response True (Parsed []))) = Some after_empty_page_2"
  by (simp add: second_fetch_pending_def after_empty_page_2_def fetchProducts_resume_success
      initial_state_def)

lemma step_after_empty_page_2: "step after_empty_page_2 Render = Some showing_empty_page_2"
  by (simp add: after_empty_page_2_def showing_empty_page_2_def initial_state_def)

lemma step_second_click:
  "step second_fetch_pending ClickLoadMore = Some two_fetches_pending"
  by (simp add: second_fetch_pending_def two_fetches_pending_def render_def initial_state_def
      handleLoadMore_def call_fetchProducts_def fetchProducts_begin_def)

lemma step_two_fetches_pending:
  "step two_fetches_pending (Settle 0 (Response True (Parsed []))) = Some first_of_two_empty"
  by (simp add: two_fetches_pending_def first_of_two_empty_def fetchProducts_resume_success
      initial_state_def)

lemma step_first_of_two_empty:
  "step first_of_two_empty (Settle 0 (Response True (Parsed [sample_product]))) =
     Some second_of_two_full"
  by (simp add: first_of_two_empty_def second_of_two_full_def fetchProducts_resume_success
      initial_state_def)

lemma run_showing_page_1:
  "run mounted [MountEffect, Settle 0 (Response True (Parsed [sample_product])), Render] =
     Some showing_page_1"
  by (simp only: run.simps step_mounted step_first_fetch_pending step_page_1_loaded
      option.case)

lemma run_after_empty_page_2:
  "run mounted [MountEffect, Settle 0 (Response True (Parsed [sample_product])), Render,
     ClickLoadMore, Settle 0 (Response True (Parsed []))] = Some after_empty_page_2"
  by (simp only: run.simps step_mounted step_first_fetch_pending step_page_1_loaded
      step_showing_page_1 step_second_fetch_pending option.case)

lemma run_showing_empty_page_2:
  "run mounted [MountEffect, Settle 0 (Response True (Parsed [sample_product])), Render,
     ClickLoadMore, Settle 0 (Response True (Parsed [])), Render] =
     Some showing_empty_page_2"
  by (simp only: run.simps step_mounted step_first_fetch_pending step_page_1_loaded
      step_showing_page_1 step_second_fetch_pending step_after_empty_page_2 option.case)

lemma step_effect_ran:
  "effect_ran c \<Longrightarrow> step c e = Some c' \<Longrightarrow> e \<noteq> MountEffect \<and> effect_ran c'"
  by (cases e) (auto simp: handleLoadMore_def call_fetchProducts_def split: if_splits)

lemma run_effect_ran:
  "effect_ran c \<Longrightarrow> run c es = Some c' \<Longrightarrow> MountEffect \<notin> set es"
proof (induction es arbitrary: c)
  case Nil
  then show ?case by simp
next
  case (Cons e es)
  then obtain c1 where s: "step c e = Some c1" and r: "run c1 es = Some c'"
    by (auto split: option.splits)
  from step_effect_ran [OF Cons.prems(1) s] Cons.IH [OF _ r]
  show ?case by auto
qed

lemma step_hasMore:
  assumes "step c e = Some c'"
  shows "(\<not> hasMore (state c')) =
         (case fetched e of None \<Rightarrow> \<not> hasMore (state c) | Some data \<Rightarrow> data = [])"
proof (cases e)
  case MountEffect
  with assms show ?thesis
    by (auto simp: call_fetchProducts_def fetchProducts_begin_def split: if_splits)
next
  case ClickLoadMore
  with assms show ?thesis
    by (auto simp: handleLoadMore_def call_fetchProducts_def fetchProducts_begin_def
        split: if_splits)
next
  case (Settle i outcome)
  show ?thesis
  proof (cases "fetch_succeeds outcome")
    case True
    with assms Settle show ?thesis
      by (auto simp: fetch_succeeds_iff fetchProducts_resume_success split: if_splits)
  next
    case False
    then have f: "fetched e = None"
      using Settle by (cases outcome rule: fetch_succeeds.cases) simp_all
    from fetchProducts_resume_failure [OF False, of "in_flight c ! i" "state c"]
      assms Settle f
    show ?thesis by (auto split: if_splits)
  qed
next
  case Render
  with assms show ?thesis
    by (auto split: if_splits)
qed

lemma run_hasMore:
  "run c es = Some c' \<Longrightarrow>
   (\<not> hasMore (state c')) =
     (case last_success es of None \<Rightarrow> \<not> hasMore (state c) | Some data \<Rightarrow> data = [])"
proof (induction es arbitrary: c)
  case Nil
  then show ?case by simp
next
  case (Cons e es)
  then obtain c1 where s: "step c e = Some c1" and r: "run c1 es = Some c'"
    by (auto split: option.splits)
  from Cons.IH [OF r] step_hasMore [OF s]
  show ?case by (auto split: option.splits)
qed

lemma fetchProducts_failure_hasMore:
  assumes "\<not> fetch_succeeds outcome"
  shows "hasMore (snd (fetchProducts_resume page outcome st)) = hasMore st"
  using fetchProducts_resume_failure [OF assms, of page st] by auto

lemma at_end_step:
  assumes "at_end c" "step c e = Some c'"
  shows "e = Render \<and> at_end c' \<and> calls c' = calls c"
  using assms by (cases e) (auto simp: at_end_def render_def split: if_splits)

lemma at_end_run:
  "at_end c \<Longrightarrow> run c es = Some c' \<Longrightarrow> at_end c' \<and> calls c' = calls c"
proof (induction es arbitrary: c)
  case Nil
  then show ?case by simp
next
  case (Cons e es)
  then obtain c1 where s: "step c e = Some c1" and r: "run c1 es = Some c'"
    by (auto split: option.splits)
  from at_end_step [OF Cons.prems(1) s] Cons.IH [OF _ r]
  show ?case by simp
qed

text \<open>
  Claim C3: in every state the component can reach, \<open>hasMore\<close> is unset exactly
  when the most recent successful fetch returned the empty sequence. In
  particular it is set in the initial state, an empty page unsets it without
  raising or reporting an error, and a failed fetch does not change it.
\<close>

theorem hasMore_false_iff_last_page_empty:
  assumes "run mounted evs = Some c"
  shows "(\<not> hasMore (state c)) = (last_success evs = Some []) \<and>
         hasMore initial_state \<and>
         fst (fetchProducts page (Response True (Parsed [])) st) = None \<and>
         \<not> hasMore (snd (fetchProducts page (Response True (Parsed [])) st)) \<and>
         notifications (snd (fetchProducts page (Response True (Parsed [])) st)) =
           notifications st \<and>
         (\<not> fetch_succeeds outcome \<longrightarrow>
            hasMore (snd (fetchProducts page outcome st)) = hasMore st)"
proof -
  from run_hasMore [OF assms]
  have "(\<not> hasMore (state c)) = (last_success evs = Some [])"
    by (auto simp: mounted_def initial_state_def split: option.splits)
  moreover have "hasMore initial_state"
    by (simp add: initial_state_def)
  moreover have "\<not> fetch_succeeds outcome \<longrightarrow>
      hasMore (snd (fetchProducts page outcome st)) = hasMore st"
    by (simp add: fetchProducts_def fetchProducts_failure_hasMore fetchProducts_begin_def)
  ultimately show ?thesis
    by (simp add: fetchProducts_def fetchProducts_resume_success fetchProducts_begin_def)
qed

theorem hasMore_false_iff_last_page_empty_witness:
  "run mounted [MountEffect, Settle 0 (Response True (Parsed [sample_product])), Render,
     ClickLoadMore, Settle 0 (Response True (Parsed []))] = Some after_empty_page_2 \<and>
   \<not> hasMore (state after_empty_page_2) \<and>
   last_success [MountEffect, Settle 0 (Response True (Parsed [sample_product])), Render,
     ClickLoadMore, Settle 0 (Response True (Parsed []))] = Some [] \<and>
   \<not> fetch_succeeds NetworkReject \<and>
   hasMore (snd (fetchProducts 2 NetworkReject (state showing_page_1))) =
     hasMore (state showing_page_1)"
  using hasMore_false_iff_last_page_empty
    [OF run_after_empty_page_2, of 2 "state showing_page_1" NetworkReject]
    run_after_empty_page_2
  by simp

text \<open>
  Claim C4 says that when the button is clicked at \<open>currentPage = 1\<close> and the API
  returns no product for page 2, then \<open>products\<close> is empty, \<open>hasMore\<close> is unset and
  the end-of-list message is shown. In that run of the code \<open>products\<close> is empty
  and \<open>hasMore\<close> is unset, but the message is not on screen after the render that
  follows: its block asks for a non-empty \<open>products\<close>, which the empty page has
  just replaced.
\<close>

theorem load_more_empty_page_hides_message:
  "run mounted [MountEffect, Settle 0 (Response True (Parsed [sample_product])), Render] =
     Some showing_page_1 \<and>
   currentPage (state showing_page_1) = 1 \<and>
   run showing_page_1 [ClickLoadMore, Settle 0 (Response True (Parsed [])), Render] =
     Some showing_empty_page_2 \<and>
   calls showing_empty_page_2 = [1, 2] \<and>
   products (state showing_empty_page_2) = [] \<and>
   hasMore (state showing_empty_page_2) = False \<and>
   shown showing_empty_page_2 = state showing_empty_page_2 \<and>
   end_of_list_message (render (shown showing_empty_page_2)) = False"
proof -
  have "run showing_page_1 [ClickLoadMore, Settle 0 (Response True (Parsed [])), Render] =
     Some showing_empty_page_2"
    by (simp only: run.simps step_showing_page_1 step_second_fetch_pending
        step_after_empty_page_2 option.case)
  moreover have "currentPage (state showing_page_1) = 1"
    by (simp add: showing_page_1_def initial_state_def)
  moreover have "end_of_list_message (render (shown showing_empty_page_2)) = False"
    by (simp add: showing_empty_page_2_def initial_state_def render_def)
  ultimately show ?thesis
    using run_showing_page_1 by (simp add: showing_empty_page_2_def initial_state_def)
qed

text \<open>
  The message is shown in no reachable state, whether in the state or in what is
  on screen: \<open>hasMore\<close> is unset only by an empty page, and the same assignment
  sequence empties \<open>products\<close>.
\<close>

lemma end_of_list_message_never_rendered:
  assumes "run mounted evs = Some c"
  shows "\<not> end_of_list_message (render (state c)) \<and>
         \<not> end_of_list_message (render (shown c))"
  using reachable_invariant [OF assms] by (auto simp: invariant_def render_def)

text \<open>
  Claim C5: every call of \<^verbatim>\<open>fetchProducts\<close> sets \<open>loading\<close> when it starts and
  unsets it when it ends, whatever the outcome; in every reachable state
  \<open>loading\<close> is set only while a call is pending, so never at rest.
\<close>

theorem loading_only_while_fetching:
  assumes "run mounted evs = Some c"
  shows "loading (fetchProducts_begin st) \<and>
         \<not> loading (snd (fetchProducts_resume page outcome st)) \<and>
         \<not> loading (snd (fetchProducts page outcome st)) \<and>
         (loading (state c) \<longrightarrow> in_flight c \<noteq> [])"
proof -
  have r: "\<not> loading (snd (fetchProducts_resume page outcome st'))" for st'
  proof (cases "fetch_succeeds outcome")
    case True
    then show ?thesis
      by (auto simp: fetch_succeeds_iff fetchProducts_resume_success)
  next
    case False
    from fetchProducts_resume_failure [OF this, of page st'] show ?thesis by auto
  qed
  from reachable_invariant [OF assms] have "loading (state c) \<longrightarrow> in_flight c \<noteq> []"
    by (simp add: invariant_def)
  with r show ?thesis
    by (simp add: fetchProducts_def fetchProducts_begin_def)
qed

theorem loading_only_while_fetching_witness:
  "run mounted [MountEffect] = Some first_fetch_pending \<and>
   loading (state first_fetch_pending) \<and> in_flight first_fetch_pending = [1] \<and>
   run mounted [MountEffect, Settle 0 (Response True (Parsed [sample_product])), Render] =
     Some showing_page_1 \<and>
   \<not> loading (state showing_page_1) \<and> in_flight showing_page_1 = [] \<and>
   loading (fetchProducts_begin initial_state) \<and>
   \<not> loading (snd (fetchProducts 1 NetworkReject initial_state))"
proof -
  have m: "run mounted [MountEffect] = Some first_fetch_pending"
    by (simp only: run.simps step_mounted option.case)
  have "in_flight first_fetch_pending = [1]" "in_flight showing_page_1 = []"
    "loading (state first_fetch_pending)" "\<not> loading (state showing_page_1)"
    by (simp_all add: first_fetch_pending_def showing_page_1_def initial_state_def)
  with loading_only_while_fetching [OF m, of initial_state 1 NetworkReject]
    loading_only_while_fetching [OF run_showing_page_1, of initial_state 1 NetworkReject]
    m run_showing_page_1
  show ?thesis by simp
qed

text \<open>
  Claim C6: the click handler of the button calls \<^verbatim>\<open>fetchProducts\<close> for page
  \<open>currentPage + 1\<close>, with \<open>currentPage\<close> as the render that made the handler saw
  it, which is that of the state whenever the component has rendered since the
  last change; and the button is rendered exactly when \<open>hasMore\<close> is set and
  \<open>loading\<close> is not.
\<close>

theorem load_more_fetches_next_page:
  "handleLoadMore c = call_fetchProducts (currentPage (shown c) + 1) c \<and>
   in_flight (handleLoadMore c) = in_flight c @ [currentPage (shown c) + 1] \<and>
   calls (handleLoadMore c) = calls c @ [currentPage (shown c) + 1] \<and>
   (shown c = state c \<longrightarrow>
      handleLoadMore c = call_fetchProducts (currentPage (state c) + 1) c \<and>
      in_flight (handleLoadMore c) = in_flight c @ [currentPage (state c) + 1] \<and>
      calls (handleLoadMore c) = calls c @ [currentPage (state c) + 1]) \<and>
   load_more_button (render st) = (hasMore st \<and> \<not> loading st) \<and>
   step c ClickLoadMore =
     (if effect_ran c \<and> hasMore (shown c) \<and> \<not> loading (shown c)
      then Some (handleLoadMore c) else None)"
  by (simp add: handleLoadMore_def call_fetchProducts_def render_def)

theorem load_more_fetches_next_page_witness:
  "shown showing_page_1 = state showing_page_1 \<and>
   currentPage (state showing_page_1) = 1 \<and>
   handleLoadMore showing_page_1 = second_fetch_pending \<and>
   in_flight (handleLoadMore showing_page_1) = [2] \<and>
   calls (handleLoadMore showing_page_1) = [1, 2] \<and>
   load_more_button (render (state showing_page_1)) \<and>
   \<not> load_more_button (render (state second_fetch_pending)) \<and>
   \<not> load_more_button (render (state after_empty_page_2)) \<and>
   step showing_page_1 ClickLoadMore = Some (handleLoadMore showing_page_1)"
  using load_more_fetches_next_page [of showing_page_1 "state showing_page_1"]
    load_more_fetches_next_page [of showing_page_1 "state second_fetch_pending"]
    load_more_fetches_next_page [of showing_page_1 "state after_empty_page_2"]
    step_showing_page_1
  by (simp add: showing_page_1_def second_fetch_pending_def after_empty_page_2_def
      initial_state_def call_fetchProducts_def fetchProducts_begin_def)

text \<open>
  Claim C7: the mount effect makes one call, \<^verbatim>\<open>fetchProducts(1)\<close>; it is the first
  event of every run and never happens again; and if that fetch returns 10
  products, then \<open>products\<close> has length 10, \<open>hasMore\<close> is set and \<open>currentPage\<close>
  is 1.
\<close>

theorem mount_fetches_page_1_once:
  "(\<exists>c1. step mounted MountEffect = Some c1 \<and> calls c1 = [1] \<and> in_flight c1 = [1]) \<and>
   (run mounted (e # evs) = Some c \<longrightarrow> e = MountEffect \<and> MountEffect \<notin> set evs) \<and>
   (length data = 10 \<longrightarrow>
      (\<exists>c2. run mounted [MountEffect, Settle 0 (Response True (Parsed data))] = Some c2 \<and>
         length (products (state c2)) = 10 \<and> hasMore (state c2) \<and>
         currentPage (state c2) = 1 \<and> calls c2 = [1]))"
proof -
  have a: "\<exists>c1. step mounted MountEffect = Some c1 \<and> calls c1 = [1] \<and> in_flight c1 = [1]"
    by (simp only: step_mounted) (simp add: first_fetch_pending_def)
  have b: "e = MountEffect \<and> MountEffect \<notin> set evs" if r: "run mounted (e # evs) = Some c"
  proof -
    from r obtain c1 where s: "step mounted e = Some c1" and r1: "run c1 evs = Some c"
      by (auto split: option.splits)
    from s have e: "e = MountEffect"
      by (cases e) (auto simp: mounted_def split: if_splits)
    with s have "c1 = first_fetch_pending"
      by (simp only: step_mounted) simp
    then have "effect_ran c1"
      by (simp add: first_fetch_pending_def)
    from run_effect_ran [OF this r1] e show ?thesis by simp
  qed
  have c: "\<exists>c2. run mounted [MountEffect, Settle 0 (Response True (Parsed data))] = Some c2 \<and>
         length (products (state c2)) = 10 \<and> hasMore (state c2) \<and>
         currentPage (state c2) = 1 \<and> calls c2 = [1]" if "length data = 10"
    using that
    by (simp add: mounted_def initial_state_def call_fetchProducts_def
        fetchProducts_begin_def fetchProducts_resume_success)
  from a b c show ?thesis by blast
qed

theorem mount_fetches_page_1_once_witness:
  "run mounted [MountEffect, Settle 0 (Response True (Parsed [sample_product])), Render] =
     Some showing_page_1 \<and>
   MountEffect \<notin> set [Settle 0 (Response True (Parsed [sample_product])), Render] \<and>
   length (replicate 10 sample_product) = 10 \<and>
   (\<exists>c2. run mounted
        [MountEffect, Settle 0 (Response True (Parsed (replicate 10 sample_product)))] =
        Some c2 \<and>
      length (products (state c2)) = 10 \<and> hasMore (state c2) \<and>
      currentPage (state c2) = 1 \<and> calls c2 = [1])"
proof -
  have l: "length (replicate 10 sample_product) = 10" by simp
  from mount_fetches_page_1_once
    [of MountEffect "[Settle 0 (Response True (Parsed [sample_product])), Render]"
      showing_page_1 "replicate 10 sample_product"]
    run_showing_page_1 l
  show ?thesis by blast
qed

text \<open>
  Claim C10, as amended: once \<open>hasMore\<close> is unset while no call of
  \<^verbatim>\<open>fetchProducts\<close> is pending and the button is not on screen, it stays unset and
  no further call is made: the mount effect has run, no call can settle, a click
  is not possible, and a render does not bring the button back. Only a
  successful fetch assigns \<open>hasMore\<close>: neither the start of a call nor a failed
  call changes it.
\<close>

theorem hasMore_false_is_final:
  assumes "run mounted evs = Some c"
    and "\<not> hasMore (state c)"
    and "in_flight c = []"
    and "\<not> load_more_button (render (shown c))"
  shows "(\<forall>evs' c'. run c evs' = Some c' \<longrightarrow>
            \<not> hasMore (state c') \<and> in_flight c' = [] \<and> calls c' = calls c) \<and>
         step c MountEffect = None \<and>
         step c ClickLoadMore = None \<and>
         (\<forall>i result. step c (Settle i result) = None) \<and>
         hasMore (fetchProducts_begin st) = hasMore st \<and>
         (\<not> fetch_succeeds outcome \<longrightarrow>
            hasMore (snd (fetchProducts_resume page outcome st)) = hasMore st)"
proof -
  from reachable_invariant [OF assms(1)] assms(2) have "effect_ran c"
    by (auto simp: invariant_def)
  with assms have e: "at_end c"
    by (simp add: at_end_def)
  have "\<not> hasMore (state c') \<and> in_flight c' = [] \<and> calls c' = calls c"
    if "run c evs' = Some c'" for evs' c'
    using at_end_run [OF e that] by (simp add: at_end_def)
  moreover from e have "step c MountEffect = None" "step c ClickLoadMore = None"
    "step c (Settle i result) = None" for i result
    by (simp_all add: at_end_def)
  ultimately show ?thesis
    by (simp add: fetchProducts_begin_def fetchProducts_failure_hasMore)
qed

theorem hasMore_false_is_final_witness:
  "run mounted [MountEffect, Settle 0 (Response True (Parsed [sample_product])), Render,
     ClickLoadMore, Settle 0 (Response True (Parsed [])), Render] =
     Some showing_empty_page_2 \<and>
   \<not> hasMore (state showing_empty_page_2) \<and>
   in_flight showing_empty_page_2 = [] \<and>
   \<not> load_more_button (render (shown showing_empty_page_2)) \<and>
   run showing_empty_page_2 [] = Some showing_empty_page_2 \<and>
   step showing_empty_page_2 MountEffect = None \<and>
   step showing_empty_page_2 ClickLoadMore = None \<and>
   step showing_empty_page_2 (Settle 0 (Response True (Parsed [sample_product]))) = None \<and>
   \<not> fetch_succeeds NetworkReject \<and>
   hasMore (snd (fetchProducts_resume 2 NetworkReject (state second_fetch_pending))) =
     hasMore (state second_fetch_pending)"
proof -
  have h: "\<not> hasMore (state showing_empty_page_2)"
    and p: "in_flight showing_empty_page_2 = []"
    and b: "\<not> load_more_button (render (shown showing_empty_page_2))"
    by (simp_all add: showing_empty_page_2_def initial_state_def render_def)
  have f: "\<not> fetch_succeeds NetworkReject" by simp
  note t = hasMore_false_is_final
    [OF run_showing_empty_page_2 h p b, of "state second_fetch_pending" NetworkReject 2]
  from t have s: "step showing_empty_page_2 MountEffect = None"
    "step showing_empty_page_2 ClickLoadMore = None"
    "step showing_empty_page_2 (Settle 0 (Response True (Parsed [sample_product]))) = None"
    by blast+
  from t f have k:
    "hasMore (snd (fetchProducts_resume 2 NetworkReject (state second_fetch_pending))) =
     hasMore (state second_fetch_pending)" by blast
  have r: "run showing_empty_page_2 [] = Some showing_empty_page_2" by simp
  from s k r run_showing_empty_page_2 h p b f show ?thesis by blast
qed

text \<open>
  The claim as the specification states it fails. The button stays on screen
  until the next render, so two clicks start two calls for page 2. When the first
  comes back empty \<open>hasMore\<close> is unset; when the other then comes back with a
  product, \<open>hasMore\<close> is set again.
\<close>

theorem hasMore_false_then_true_counterexample:
  "run mounted [MountEffect, Settle 0 (Response True (Parsed [sample_product])), Render,
     ClickLoadMore, ClickLoadMore, Settle 0 (Response True (Parsed []))] =
     Some first_of_two_empty \<and>
   hasMore (state first_of_two_empty) = False \<and>
   run first_of_two_empty [Settle 0 (Response True (Parsed [sample_product]))] =
     Some second_of_two_full \<and>
   hasMore (state second_of_two_full) = True"
proof -
  have "run mounted [MountEffect, Settle 0 (Response True (Parsed [sample_product])), Render,
     ClickLoadMore, ClickLoadMore, Settle 0 (Response True (Parsed []))] =
     Some first_of_two_empty"
    by (simp only: run.simps step_mounted step_first_fetch_pending step_page_1_loaded
        step_showing_page_1 step_second_click step_two_fetches_pending option.case)
  moreover have "run first_of_two_empty
      [Settle 0 (Response True (Parsed [sample_product]))] = Some second_of_two_full"
    by (simp only: run.simps step_first_of_two_empty option.case)
  ultimately show ?thesis
    by (simp add: first_of_two_empty_def second_of_two_full_def initial_state_def)
qed

text \<open>
  Nor is it enough that no call is pending: with \<open>hasMore\<close> unset and nothing
  pending, a button still on screen from an earlier render can be clicked.
\<close>

lemma stale_button_starts_a_call:
  "hasMore (state after_empty_page_2) = False \<and> in_flight after_empty_page_2 = [] \<and>
   load_more_button (render (shown after_empty_page_2)) \<and>
   step after_empty_page_2 ClickLoadMore = Some (handleLoadMore after_empty_page_2) \<and>
   in_flight (handleLoadMore after_empty_page_2) = [2]"
  by (simp add: after_empty_page_2_def initial_state_def render_def handleLoadMore_def
      call_fetchProducts_def)

section \<open>The Price and Rating cells on sample values\<close>

lemma floor_rat_numeral:
  "\<lfloor>numeral a / numeral b :: rat\<rfloor> = numeral a div numeral b"
  by (metis floor_divide_of_int_eq of_int_numeral)

lemma ceiling_rat_numeral:
  "\<lceil>numeral a / numeral b :: rat\<rceil> = - (- numeral a div numeral b)"
  by (metis ceiling_divide_eq_div of_int_numeral)

lemmas nearest_double_eval =
  nearest_double_def round_to_double_def floor_log_def count_digits.simps pow_def
  round_half_even_def Let_def floor_rat_numeral ceiling_rat_numeral

lemmas number_to_string_eval =
  positive_to_string_def shortest.simps round_trips_def distance_def format_digits_def
  decimal_digits.simps digit_char_def zeros_def nearest_double_eval

text \<open>
  The literal \<^verbatim>\<open>19.5\<close> is a double; \<^verbatim>\<open>4.3\<close> denotes the double next to it,
  \<open>4841369599423283 / 2 ^ 50\<close>.
\<close>

lemma nearest_double_19_5: "nearest_double (195 / 10) = Finite (39 / 2)"
  by (simp add: nearest_double_eval)

lemma nearest_double_4_3:
  "nearest_double (43 / 10) = Finite (4841369599423283 / 1125899906842624)"
  by (simp add: nearest_double_eval)

lemma nearest_double_120: "nearest_double 120 = Finite 120"
  by (simp add: nearest_double_eval)

lemma toFixed_19_5: "toFixed 2 (Finite (39 / 2)) = ''19.50''"
  by (simp add: toFixed_def pow_def Let_def decimal_digits.simps digit_char_def zeros_def
      floor_rat_numeral)

lemma number_to_string_4_3:
  "number_to_string (Finite (4841369599423283 / 1125899906842624)) = ''4.3''"
  by (simp add: number_to_string_eval)

lemma number_to_string_120: "number_to_string (Finite 120) = ''120''"
  by (simp add: number_to_string_eval)

text \<open>
  Claim C8: for the price 19.5 the Price cell shows \<^verbatim>\<open>$19.50\<close>, and for the rating
  \<^verbatim>\<open>{rate: 4.3, count: 120}\<close> the Rating cell shows the average \<^verbatim>\<open>4.3\<close> and the
  text \<^verbatim>\<open>(120 reviews)\<close>.
\<close>

theorem price_and_rating_cells:
  "render_price (nearest_double (195 / 10)) = ''$19.50'' \<and>
   average (render_rating \<lparr>rate = nearest_double (43 / 10), count = nearest_double 120\<rparr>) =
     ''4.3'' \<and>
   reviews (render_rating \<lparr>rate = nearest_double (43 / 10), count = nearest_double 120\<rparr>) =
     ''(120 reviews)''"
proof -
  have p: "render_price (nearest_double (195 / 10)) = ''$19.50''"
    by (simp only: render_price_def nearest_double_19_5 toFixed_19_5 append.simps)
  have r: "render_rating \<lparr>rate = nearest_double (43 / 10), count = nearest_double 120\<rparr> =
      \<lparr>star = [CHR 0xE2, CHR 0x98, CHR 0x85], average = ''4.3'',
       reviews = ''(120 reviews)''\<rparr>"
    by (simp only: render_rating_def Rating.simps nearest_double_4_3 nearest_double_120
        number_to_string_4_3 number_to_string_120 append.simps)
  from p r show ?thesis by simp
qed

theorem price_and_rating_cells_witness:
  "render_price (price sample_product) = ''$19.50'' \<and>
   average (render_rating (rating sample_product)) = ''4.3'' \<and>
   reviews (render_rating (rating sample_product)) = ''(120 reviews)''"
proof -
  have "price sample_product = nearest_double (195 / 10)"
    by (simp only: sample_product_def Product.simps)
  moreover have "rating sample_product =
      \<lparr>rate = nearest_double (43 / 10), count = nearest_double 120\<rparr>"
    by (simp only: sample_product_def Product.simps nearest_double_120)
  ultimately show ?thesis
    using price_and_rating_cells by (simp only:)
qed


end
